theory Spec2Isabelle
  imports Complex_Main "HOL-Library.Multiset"
begin

section \<open>Data model of pipeline.py\<close>

text \<open>
  A float64 cell of a pandas column. The pipeline only compares such cells with
  constants, and a comparison of floats is exact on the values they denote, so a cell
  is a rational, an infinity or NaN. Every comparison with NaN is false.
\<close>

datatype fval = NaN | NegInf | Fin rat | PosInf

fun fgt :: "fval \<Rightarrow> rat \<Rightarrow> bool" where
  "fgt NaN c = False"
| "fgt NegInf c = False"
| "fgt (Fin q) c = (q > c)"
| "fgt PosInf c = True"

fun flt :: "fval \<Rightarrow> rat \<Rightarrow> bool" where
  "flt NaN c = False"
| "flt NegInf c = True"
| "flt (Fin q) c = (q < c)"
| "flt PosInf c = False"

fun feq :: "fval \<Rightarrow> rat \<Rightarrow> bool" where
  "feq NaN c = False"
| "feq NegInf c = False"
| "feq (Fin q) c = (q = c)"
| "feq PosInf c = False"

text \<open>
  A datetime64 cell: nanoseconds since the epoch, \<open>None\<close> for NaT. A comparison with
  NaT is false.
\<close>

fun tge :: "int option \<Rightarrow> int \<Rightarrow> bool" where
  "tge None c = False"
| "tge (Some t) c = (t \<ge> c)"

text \<open>
  One row of the trip table, over the schema that \<open>TLCScraper.process_file\<close> writes,
  followed by the three columns that \<open>analyze_congestion_zone\<close> adds.
\<close>

record trip =
  pickup_time :: "int option"
  dropoff_time :: "int option"
  pickup_loc :: int
  dropoff_loc :: int
  trip_distance :: fval
  fare :: fval
  total_amount :: fval
  congestion_surcharge :: fval
  tip :: fval
  hour :: int
  day_of_week :: int
  month :: int
  trip_duration :: fval
  avg_speed :: fval
  pickup_in_zone :: bool
  dropoff_in_zone :: bool
  enters_zone :: bool

text \<open>
  A DataFrame: its column labels, in order, and its rows. A column that is not among
  the labels is absent: every read of a column goes through \<open>getcol\<close>, which raises
  KeyError for an absent label, so the cell a row holds for an absent column is never
  read.
\<close>

record frame =
  columns :: "string list"
  rows :: "trip list"

datatype error = KeyError string | ZeroDivisionError

text \<open>What the functions print, one constructor for each print statement.\<close>

datatype out_line =
    Detecting
  | SpeedCount nat
  | TeleportCount nat
  | StationaryCount nat
  | TotalRemoved nat rat
  | Analyzing
  | ZoneEntries nat
  | CompliantCount nat
  | ComplianceRate rat
  | TopLeakageHeader
  | LeakageLocation int nat
  | SummaryHeader
  | TotalTrips nat
  | AverageFare
  | AverageDistance
  | AverageSpeed
  | TotalRevenue
  | TotalSurcharge

subsection \<open>Column operations of pandas\<close>

text \<open>\<open>df[name]\<close>: the column as a list of cells, KeyError when the label is absent.\<close>

definition getcol :: "string \<Rightarrow> (trip \<Rightarrow> 'a) \<Rightarrow> frame \<Rightarrow> error + 'a list" where
  "getcol name field df =
     (if name \<in> set (columns df) then Inr (map field (rows df)) else Inl (KeyError name))"

text \<open>\<open>df[mask]\<close>: the rows at which the boolean mask is true, columns unchanged.\<close>

definition bool_index :: "frame \<Rightarrow> bool list \<Rightarrow> frame" where
  "bool_index df bmask = df\<lparr>rows := map fst (filter snd (zip (rows df) bmask))\<rparr>"

text \<open>\<open>mask.sum()\<close>: the number of true cells.\<close>

definition mask_sum :: "bool list \<Rightarrow> nat" where
  "mask_sum bmask = length (filter (\<lambda>b. b) bmask)"

text \<open>
  \<open>df[name] = values\<close>: the cells of the column are replaced row by row; a label that
  is new is appended to the labels.
\<close>

definition setcol :: "string \<Rightarrow> (trip \<Rightarrow> 'a \<Rightarrow> trip) \<Rightarrow> 'a list \<Rightarrow> frame \<Rightarrow> frame" where
  "setcol name upd vals df =
     \<lparr>columns = (if name \<in> set (columns df) then columns df else columns df @ [name]),
      rows = map2 upd (rows df) vals\<rparr>"

section \<open>The zone set\<close>

definition CONGESTION_ZONE_IDS :: "int list" where
  "CONGESTION_ZONE_IDS =
    [4, 12, 13, 24, 41, 42, 43, 45, 48, 50, 68, 74, 75, 79, 87, 88, 90, 100, 103,
     107, 113, 114, 116, 120, 125, 127, 128, 137, 140, 141, 142, 143, 144, 148, 151,
     152, 153, 158, 161, 162, 163, 164, 166, 170, 186, 194, 202, 209, 211, 224, 229,
     230, 231, 232, 233, 234, 236, 237, 238, 239, 243, 244, 246, 249, 261, 262, 263]"

text \<open>\<open>series.isin(values)\<close>, cell by cell.\<close>

definition isin :: "int list \<Rightarrow> int list \<Rightarrow> bool list" where
  "isin col vals = map (\<lambda>x. x \<in> set vals) col"

section \<open>The anomaly classifier\<close>

text \<open>
  \<open>detect_ghost_trips(df)\<close>. The result is the pair \<open>(clean_df, ghost_df)\<close> or the
  exception raised, together with the lines printed up to that point. The columns are
  read in the order of the source (avg_speed, trip_duration, fare, trip_distance, fare);
  the last print divides by \<open>len(df)\<close>, and Python's \<open>/\<close> on integers raises
  ZeroDivisionError for a zero divisor.
\<close>

definition detect_ghost_trips :: "frame \<Rightarrow> (error + frame \<times> frame) \<times> out_line list" where
  "detect_ghost_trips df =
    (case getcol ''avg_speed'' avg_speed df of
       Inl e \<Rightarrow> (Inl e, [Detecting])
     | Inr speed \<Rightarrow>
    (case getcol ''trip_duration'' trip_duration df of
       Inl e \<Rightarrow> (Inl e, [Detecting])
     | Inr duration \<Rightarrow>
    (case getcol ''fare'' fare df of
       Inl e \<Rightarrow> (Inl e, [Detecting])
     | Inr fares \<Rightarrow>
    (case getcol ''trip_distance'' trip_distance df of
       Inl e \<Rightarrow> (Inl e, [Detecting])
     | Inr distance \<Rightarrow>
       let mask_speed = map (\<lambda>x. fgt x 65) speed;
           speed_count = mask_sum mask_speed;
           mask_teleport = map2 (\<and>) (map (\<lambda>x. flt x 1) duration) (map (\<lambda>x. fgt x 20) fares);
           teleport_count = mask_sum mask_teleport;
           mask_stationary = map2 (\<and>) (map (\<lambda>x. feq x 0) distance) (map (\<lambda>x. fgt x 0) fares);
           stationary_count = mask_sum mask_stationary;
           ghost_mask = map2 (\<or>) (map2 (\<or>) mask_speed mask_teleport) mask_stationary;
           ghost_df = bool_index df ghost_mask;
           clean_df = bool_index df (map Not ghost_mask);
           printed = [Detecting, SpeedCount speed_count, TeleportCount teleport_count,
                      StationaryCount stationary_count]
       in if length (rows df) = 0 then (Inl ZeroDivisionError, printed)
          else (Inr (clean_df, ghost_df),
                printed @ [TotalRemoved (length (rows ghost_df))
                   (of_nat (length (rows ghost_df)) / of_nat (length (rows df)) * 100)])))))"

text \<open>The three rules on one row, and their disjunction.\<close>

definition rule_speed :: "trip \<Rightarrow> bool" where
  "rule_speed t = fgt (avg_speed t) 65"

definition rule_teleport :: "trip \<Rightarrow> bool" where
  "rule_teleport t = (flt (trip_duration t) 1 \<and> fgt (fare t) 20)"

definition rule_stationary :: "trip \<Rightarrow> bool" where
  "rule_stationary t = (feq (trip_distance t) 0 \<and> fgt (fare t) 0)"

definition is_ghost :: "trip \<Rightarrow> bool" where
  "is_ghost t = (rule_speed t \<or> rule_teleport t \<or> rule_stationary t)"

definition rule_columns :: "string list" where
  "rule_columns = [''avg_speed'', ''trip_duration'', ''fare'', ''trip_distance'']"

section \<open>The zone compliance analyzer\<close>

text \<open>
  \<open>analyze_congestion_zone\<close> assigns columns of the table it is given, and returns
  that table. Tables are therefore objects in a store, and a variable of the program
  holds a reference.
\<close>

type_synonym ref = nat
type_synonym store = "ref \<Rightarrow> frame"

text \<open>
  \<open>'2025-01-05'\<close>, which pandas reads as the timestamp 2025-01-05 00:00:00, in
  nanoseconds since the epoch (20093 days).
\<close>

definition cutoff :: int where
  "cutoff = 1736035200000000000"

text \<open>
  \<open>series.groupby(key).size()\<close>: one entry for each distinct key, in ascending order
  of the key (\<open>sort=True\<close> is the default), with the number of rows that have it.
\<close>

definition groupby_size :: "int list \<Rightarrow> (int \<times> nat) list" where
  "groupby_size ks = map (\<lambda>k. (k, count_list ks k)) (sort (remdups ks))"

text \<open>
  \<open>series.nlargest(n)\<close>: the \<open>n\<close> entries of largest value, in descending order of
  the value; among equal values the entries that come first in the series are kept, in
  their order (\<open>keep='first'\<close> is the default).
\<close>

definition nlargest :: "nat \<Rightarrow> (int \<times> nat) list \<Rightarrow> (int \<times> nat) list" where
  "nlargest n s = take n (sort_key (\<lambda>e. - int (snd e)) s)"

text \<open>Lines 64 to 66: the three assignments, each on the object behind \<open>df\<close>.\<close>

definition flag_zone_trips :: "ref \<Rightarrow> store \<Rightarrow> (error + unit) \<times> store" where
  "flag_zone_trips df h =
    (case getcol ''pickup_loc'' pickup_loc (h df) of
       Inl e \<Rightarrow> (Inl e, h)
     | Inr pu \<Rightarrow>
       let h1 = h(df := setcol ''pickup_in_zone'' (\<lambda>t v. t\<lparr>pickup_in_zone := v\<rparr>)
                          (isin pu CONGESTION_ZONE_IDS) (h df))
       in (case getcol ''dropoff_loc'' dropoff_loc (h1 df) of
             Inl e \<Rightarrow> (Inl e, h1)
           | Inr dof \<Rightarrow>
             let h2 = h1(df := setcol ''dropoff_in_zone'' (\<lambda>t v. t\<lparr>dropoff_in_zone := v\<rparr>)
                                 (isin dof CONGESTION_ZONE_IDS) (h1 df))
             in (case getcol ''pickup_in_zone'' pickup_in_zone (h2 df) of
                   Inl e \<Rightarrow> (Inl e, h2)
                 | Inr piz \<Rightarrow>
                  (case getcol ''dropoff_in_zone'' dropoff_in_zone (h2 df) of
                     Inl e \<Rightarrow> (Inl e, h2)
                   | Inr diz \<Rightarrow>
                       (Inr (), h2(df := setcol ''enters_zone'' (\<lambda>t v. t\<lparr>enters_zone := v\<rparr>)
                                           (map2 (\<and>) (map Not piz) diz) (h2 df)))))))"

text \<open>
  Lines 69 and 70: \<open>post_toll\<close> and \<open>zone_entries\<close>, new tables read off the
  annotated one.
\<close>

definition zone_entries_of :: "frame \<Rightarrow> error + frame" where
  "zone_entries_of df =
    (case getcol ''pickup_time'' pickup_time df of
       Inl e \<Rightarrow> Inl e
     | Inr ptimes \<Rightarrow>
       let post_toll = bool_index df (map (\<lambda>x. tge x cutoff) ptimes)
       in (case getcol ''enters_zone'' enters_zone post_toll of
             Inl e \<Rightarrow> Inl e
           | Inr ez \<Rightarrow> Inr (bool_index post_toll ez)))"

text \<open>
  Lines 72 to 86: the report on a table of zone entries, as the lines printed and the
  exception raised, if any. Nothing is printed, and nothing is read, when the table is
  empty. Line 81 reads the surcharge column that line 73 has read; it is read once here.
\<close>

definition compliance_report :: "frame \<Rightarrow> (error + unit) \<times> out_line list" where
  "compliance_report zone_entries =
    (if length (rows zone_entries) > 0 then
      (case getcol ''congestion_surcharge'' congestion_surcharge zone_entries of
         Inl e \<Rightarrow> (Inl e, [])
       | Inr sur \<Rightarrow>
         let compliant = bool_index zone_entries (map (\<lambda>x. fgt x 0) sur);
             compliance_rate =
               of_nat (length (rows compliant)) / of_nat (length (rows zone_entries));
             printed = [ZoneEntries (length (rows zone_entries)),
                        CompliantCount (length (rows compliant)),
                        ComplianceRate compliance_rate];
             non_compliant = bool_index zone_entries (map (\<lambda>x. feq x 0) sur)
         in if length (rows non_compliant) > 0 then
              (case getcol ''pickup_loc'' pickup_loc non_compliant of
                 Inl e \<Rightarrow> (Inl e, printed)
               | Inr locs \<Rightarrow>
                 let top_leakage = nlargest 3 (groupby_size locs)
                 in (Inr (), printed @ [TopLeakageHeader]
                        @ map (\<lambda>e. LeakageLocation (fst e) (snd e)) top_leakage))
            else (Inr (), printed))
     else (Inr (), []))"

text \<open>
  \<open>analyze_congestion_zone(df)\<close>: the reference returned or the exception raised, the
  store afterwards, and the lines printed.
\<close>

definition analyze_congestion_zone :: "ref \<Rightarrow> store \<Rightarrow> (error + ref) \<times> store \<times> out_line list" where
  "analyze_congestion_zone df h =
    (case flag_zone_trips df h of
       (Inl e, h') \<Rightarrow> (Inl e, h', [Analyzing])
     | (Inr u, h') \<Rightarrow>
      (case zone_entries_of (h' df) of
         Inl e \<Rightarrow> (Inl e, h', [Analyzing])
       | Inr zone_entries \<Rightarrow>
        (case compliance_report zone_entries of
           (Inl e, printed) \<Rightarrow> (Inl e, h', Analyzing # printed)
         | (Inr u', printed) \<Rightarrow> (Inr df, h', Analyzing # printed))))"

text \<open>
  The qualifying set of a table, row by row: picked up at or after the cutoff, outside
  the zone, and dropped off inside it.
\<close>

definition qualifies :: "trip \<Rightarrow> bool" where
  "qualifies t = (tge (pickup_time t) cutoff
      \<and> pickup_loc t \<notin> set CONGESTION_ZONE_IDS \<and> dropoff_loc t \<in> set CONGESTION_ZONE_IDS)"

text \<open>The row as \<open>analyze_congestion_zone\<close> leaves it.\<close>

definition annotate :: "trip \<Rightarrow> trip" where
  "annotate t = t\<lparr>pickup_in_zone := pickup_loc t \<in> set CONGESTION_ZONE_IDS,
                  dropoff_in_zone := dropoff_loc t \<in> set CONGESTION_ZONE_IDS,
                  enters_zone := (pickup_loc t \<notin> set CONGESTION_ZONE_IDS
                                  \<and> dropoff_loc t \<in> set CONGESTION_ZONE_IDS)\<rparr>"

definition zone_columns :: "string list" where
  "zone_columns = [''pickup_in_zone'', ''dropoff_in_zone'', ''enters_zone'']"

text \<open>The labels after the three assignments: a label that was absent is appended.\<close>

definition add_label :: "string \<Rightarrow> string list \<Rightarrow> string list" where
  "add_label name cs = (if name \<in> set cs then cs else cs @ [name])"

section \<open>Summary statistics and the driver\<close>

text \<open>
  \<open>create_summary_stats(df)\<close>. The means and sums it prints are floating-point
  aggregates; the lines are kept without their values. What is kept is which columns
  are read, in which order, and the KeyError of an absent one.
\<close>

definition create_summary_stats :: "frame \<Rightarrow> (error + unit) \<times> out_line list" where
  "create_summary_stats df =
    (let printed = [SummaryHeader, TotalTrips (length (rows df))] in
     case getcol ''fare'' fare df of
       Inl e \<Rightarrow> (Inl e, printed)
     | Inr c1 \<Rightarrow>
    (case getcol ''trip_distance'' trip_distance df of
       Inl e \<Rightarrow> (Inl e, printed @ [AverageFare])
     | Inr c2 \<Rightarrow>
    (case getcol ''avg_speed'' avg_speed df of
       Inl e \<Rightarrow> (Inl e, printed @ [AverageFare, AverageDistance])
     | Inr c3 \<Rightarrow>
    (case getcol ''total_amount'' total_amount df of
       Inl e \<Rightarrow> (Inl e, printed @ [AverageFare, AverageDistance, AverageSpeed])
     | Inr c4 \<Rightarrow>
       (Inr (), printed @ [AverageFare, AverageDistance, AverageSpeed, TotalRevenue]
                 @ (if ''congestion_surcharge'' \<in> set (columns df)
                    then [TotalSurcharge] else []))))))"

text \<open>
  The store of \<open>main\<close> after line 134: \<open>df\<close> at 0, \<open>clean_df\<close> at 1,
  \<open>ghost_df\<close> at 2; the two copies are new objects.
\<close>

definition main_store :: "frame \<Rightarrow> frame \<Rightarrow> frame \<Rightarrow> store" where
  "main_store df clean_df ghost_df =
     (\<lambda>r. if r = 0 then df else if r = 1 then clean_df else ghost_df)"

text \<open>
  \<open>main\<close>, from the table that \<open>pd.read_parquet(processed)\<close> loads (the download
  and \<open>process_file\<close> before it are input and output). The result is the pair of
  tables written to clean_data.parquet and ghost_trips.parquet: the objects behind
  \<open>clean_df\<close> and \<open>ghost_df\<close> as they are at lines 144 and 145.
\<close>

definition main :: "frame \<Rightarrow> (error + frame \<times> frame) \<times> out_line list" where
  "main df =
    (case detect_ghost_trips df of
       (Inl e, o1) \<Rightarrow> (Inl e, o1)
     | (Inr (clean_df, ghost_df), o1) \<Rightarrow>
      (case analyze_congestion_zone 1 (main_store df clean_df ghost_df) of
         (Inl e, h, o2) \<Rightarrow> (Inl e, o1 @ o2)
       | (Inr analyzed_df, h, o2) \<Rightarrow>
        (case create_summary_stats (h analyzed_df) of
           (Inl e, o3) \<Rightarrow> (Inl e, o1 @ o2 @ o3)
         | (Inr u, o3) \<Rightarrow> (Inr (h 1, h 2), o1 @ o2 @ o3))))"

section \<open>What the analyzer computes, row by row\<close>

text \<open>The table as \<open>analyze_congestion_zone\<close> leaves it.\<close>

definition annotated :: "frame \<Rightarrow> frame" where
  "annotated df = \<lparr>columns = add_label ''enters_zone'' (add_label ''dropoff_in_zone''
                      (add_label ''pickup_in_zone'' (columns df))),
                   rows = map annotate (rows df)\<rparr>"

text \<open>
  The lines of lines 76 to 86, on the rows of the qualifying set: the three counts,
  and the ranking when some qualifying row has a surcharge equal to zero.
\<close>

definition report_lines :: "trip list \<Rightarrow> out_line list" where
  "report_lines qs =
    (if qs = [] then []
     else [ZoneEntries (length qs),
           CompliantCount (length (filter (\<lambda>t. fgt (congestion_surcharge t) 0) qs)),
           ComplianceRate (of_nat (length (filter (\<lambda>t. fgt (congestion_surcharge t) 0) qs))
                            / of_nat (length qs))]
          @ (if filter (\<lambda>t. feq (congestion_surcharge t) 0) qs = [] then []
             else TopLeakageHeader # map (\<lambda>e. LeakageLocation (fst e) (snd e))
                    (nlargest 3 (groupby_size (map pickup_loc
                       (filter (\<lambda>t. feq (congestion_surcharge t) 0) qs))))))"

text \<open>
  The order of the ranking: a larger count first, and among equal counts the smaller
  location identifier first.
\<close>

definition ranks_before :: "int \<times> nat \<Rightarrow> int \<times> nat \<Rightarrow> bool" where
  "ranks_before a b = (snd a > snd b \<or> (snd a = snd b \<and> fst a < fst b))"


fun compliance_rates :: "out_line list \<Rightarrow> rat list" where
  "compliance_rates [] = []"
| "compliance_rates (ComplianceRate q # ls) = q # compliance_rates ls"
| "compliance_rates (l # ls) = compliance_rates ls"


section \<open>Example tables\<close>

text \<open>The labels that \<open>process_file\<close> writes, in its order.\<close>

definition schema_columns :: "string list" where
  "schema_columns = [''pickup_time'', ''dropoff_time'', ''pickup_loc'', ''dropoff_loc'',
     ''trip_distance'', ''fare'', ''total_amount'', ''congestion_surcharge'', ''tip'',
     ''hour'', ''day_of_week'', ''month'', ''trip_duration'', ''avg_speed'']"

text \<open>
  A trip of 15 minutes and 5 miles at 20 mph, picked up at the cutoff outside the zone
  (location 7) and dropped off inside it (location 4), with a surcharge of 2.50.
\<close>

definition example_trip :: trip where
  "example_trip = \<lparr>pickup_time = Some cutoff, dropoff_time = Some (cutoff + 900000000000),
     pickup_loc = 7, dropoff_loc = 4, trip_distance = Fin 5, fare = Fin 30,
     total_amount = Fin 35, congestion_surcharge = Fin (5 / 2), tip = Fin 0,
     hour = 0, day_of_week = 6, month = 1, trip_duration = Fin 15, avg_speed = Fin 20,
     pickup_in_zone = False, dropoff_in_zone = False, enters_zone = False\<rparr>"

definition table_of :: "trip list \<Rightarrow> frame" where
  "table_of ts = \<lparr>columns = schema_columns, rows = ts\<rparr>"



section \<open>Properties of the zone set\<close>

text \<open>
  C3 (as amended): the zone set is a fixed list of exactly 67 distinct integer zone
  identifiers, in ascending order.
\<close>

theorem zone_ids_67:
  "length CONGESTION_ZONE_IDS = 67 \<and> distinct CONGESTION_ZONE_IDS
   \<and> card (set CONGESTION_ZONE_IDS) = 67 \<and> sorted CONGESTION_ZONE_IDS"
  by (simp add: CONGESTION_ZONE_IDS_def)

text \<open>C3 as stated fails: the zone set does not have 64 members.\<close>

theorem zone_ids_not_64: "card (set CONGESTION_ZONE_IDS) \<noteq> 64"
proof -
  have "distinct CONGESTION_ZONE_IDS" "length CONGESTION_ZONE_IDS = 67"
    by (simp_all add: CONGESTION_ZONE_IDS_def)
  then have "card (set CONGESTION_ZONE_IDS) = 67"
    by (simp add: distinct_card)
  then show ?thesis by simp
qed

section \<open>Column operations\<close>

lemma map2_map_same: "map2 f (map g xs) (map k xs) = map (\<lambda>x. f (g x) (k x)) xs"
  by (induction xs) simp_all

lemma map2_same: "map2 f xs (map k xs) = map (\<lambda>x. f x (k x)) xs"
  by (induction xs) simp_all

lemma select_map: "map fst (filter snd (zip xs (map p xs))) = filter p xs"
  by (induction xs) simp_all

lemma bool_index_rows: "rows (bool_index df (map p (rows df))) = filter p (rows df)"
  by (simp add: bool_index_def select_map)

lemma bool_index_map: "bool_index df (map p (rows df)) = df\<lparr>rows := filter p (rows df)\<rparr>"
  by (simp add: bool_index_def select_map)

lemma bool_index_columns: "columns (bool_index df m) = columns df"
  by (simp add: bool_index_def)

lemma getcol_present: "name \<in> set (columns df) \<Longrightarrow> getcol name field df = Inr (map field (rows df))"
  by (simp add: getcol_def)

lemma getcol_absent: "name \<notin> set (columns df) \<Longrightarrow> getcol name field df = Inl (KeyError name)"
  by (simp add: getcol_def)

section \<open>The classifier, row by row\<close>

lemma ghost_mask_rows:
  "map2 (\<or>) (map2 (\<or>) (map (\<lambda>x. fgt x 65) (map avg_speed ts))
       (map2 (\<and>) (map (\<lambda>x. flt x 1) (map trip_duration ts)) (map (\<lambda>x. fgt x 20) (map fare ts))))
       (map2 (\<and>) (map (\<lambda>x. feq x 0) (map trip_distance ts)) (map (\<lambda>x. fgt x 0) (map fare ts)))
   = map is_ghost ts"
  by (induction ts) (simp_all add: is_ghost_def rule_speed_def rule_teleport_def rule_stationary_def)

lemma detect_returns:
  assumes "set rule_columns \<subseteq> set (columns df)" "rows df \<noteq> []"
  shows "fst (detect_ghost_trips df) =
     Inr (df\<lparr>rows := filter (\<lambda>t. \<not> is_ghost t) (rows df)\<rparr>, df\<lparr>rows := filter is_ghost (rows df)\<rparr>)"
proof -
  have g: "getcol ''avg_speed'' avg_speed df = Inr (map avg_speed (rows df))"
    "getcol ''trip_duration'' trip_duration df = Inr (map trip_duration (rows df))"
    "getcol ''fare'' fare df = Inr (map fare (rows df))"
    "getcol ''trip_distance'' trip_distance df = Inr (map trip_distance (rows df))"
    using assms(1) by (simp_all add: rule_columns_def getcol_present)
  show ?thesis
    unfolding detect_ghost_trips_def g
    apply (simp only: sum.case Let_def ghost_mask_rows)
    apply (simp add: bool_index_map assms(2) comp_def)
    done
qed

lemma detect_empty:
  assumes "set rule_columns \<subseteq> set (columns df)" "rows df = []"
  shows "fst (detect_ghost_trips df) = Inl ZeroDivisionError"
  using assms
  by (simp add: detect_ghost_trips_def rule_columns_def getcol_present Let_def)

lemma detect_missing:
  assumes "\<not> set rule_columns \<subseteq> set (columns df)"
  shows "\<exists>c \<in> set rule_columns. detect_ghost_trips df = (Inl (KeyError c), [Detecting])"
  using assms
  by (auto simp add: detect_ghost_trips_def rule_columns_def getcol_def Let_def)

lemma schema_has:
  "''avg_speed'' \<in> set schema_columns" "''trip_duration'' \<in> set schema_columns"
  "''fare'' \<in> set schema_columns" "''trip_distance'' \<in> set schema_columns"
  "''pickup_loc'' \<in> set schema_columns" "''dropoff_loc'' \<in> set schema_columns"
  "''pickup_time'' \<in> set schema_columns" "''congestion_surcharge'' \<in> set schema_columns"
  "''total_amount'' \<in> set schema_columns"
  by (simp_all add: schema_columns_def)

section \<open>The analyzer, row by row\<close>

lemma add_label_same: "name \<in> set (add_label name cs)"
  by (simp add: add_label_def)

lemma add_label_mono: "c \<in> set cs \<Longrightarrow> c \<in> set (add_label name cs)"
  by (simp add: add_label_def)

lemma setcol_map:
  "setcol name upd (map f (rows df)) df =
     \<lparr>columns = add_label name (columns df), rows = map (\<lambda>t. upd t (f t)) (rows df)\<rparr>"
  by (simp add: setcol_def add_label_def map2_same)

lemma isin_map: "isin (map f ts) vals = map (\<lambda>t. f t \<in> set vals) ts"
  by (simp add: isin_def comp_def)

lemma setcol_map_map:
  "setcol name upd (map g xs) \<lparr>columns = cs, rows = map u xs\<rparr> =
     \<lparr>columns = add_label name cs, rows = map (\<lambda>t. upd (u t) (g t)) xs\<rparr>"
  by (simp add: setcol_def add_label_def map2_map_same)

lemma flag_zone_trips_eq:
  assumes "''pickup_loc'' \<in> set (columns (h r))" "''dropoff_loc'' \<in> set (columns (h r))"
  shows "flag_zone_trips r h = (Inr (), h(r := annotated (h r)))"
proof -
  let ?Z = "CONGESTION_ZONE_IDS"
  let ?ts = "rows (h r)"
  define u1 :: "trip \<Rightarrow> trip" where "u1 = (\<lambda>t. t\<lparr>pickup_in_zone := pickup_loc t \<in> set ?Z\<rparr>)"
  define u2 :: "trip \<Rightarrow> trip" where "u2 = (\<lambda>t. (u1 t)\<lparr>dropoff_in_zone := dropoff_loc t \<in> set ?Z\<rparr>)"
  define c1 where "c1 = add_label ''pickup_in_zone'' (columns (h r))"
  define c2 where "c2 = add_label ''dropoff_in_zone'' c1"
  define d1 where "d1 = \<lparr>columns = c1, rows = map u1 ?ts\<rparr>"
  define d2 where "d2 = \<lparr>columns = c2, rows = map u2 ?ts\<rparr>"
  have g1: "getcol ''pickup_loc'' pickup_loc (h r) = Inr (map pickup_loc ?ts)"
    using assms(1) by (simp add: getcol_def)
  have s1: "setcol ''pickup_in_zone'' (\<lambda>t v. t\<lparr>pickup_in_zone := v\<rparr>)
              (isin (map pickup_loc ?ts) ?Z) (h r) = d1"
    by (simp add: isin_map setcol_map d1_def c1_def u1_def)
  have g2: "getcol ''dropoff_loc'' dropoff_loc d1 = Inr (map dropoff_loc ?ts)"
    using assms(2) by (simp add: getcol_def d1_def c1_def add_label_mono u1_def comp_def)
  have s2: "setcol ''dropoff_in_zone'' (\<lambda>t v. t\<lparr>dropoff_in_zone := v\<rparr>)
              (isin (map dropoff_loc ?ts) ?Z) d1 = d2"
    by (simp add: isin_map d1_def d2_def c2_def u2_def setcol_map_map)
  have g3: "getcol ''pickup_in_zone'' pickup_in_zone d2
              = Inr (map (\<lambda>t. pickup_loc t \<in> set ?Z) ?ts)"
    by (simp add: getcol_def d2_def c2_def c1_def add_label_mono add_label_same u2_def u1_def comp_def)
  have g4: "getcol ''dropoff_in_zone'' dropoff_in_zone d2
              = Inr (map (\<lambda>t. dropoff_loc t \<in> set ?Z) ?ts)"
    by (simp add: getcol_def d2_def c2_def add_label_same u2_def comp_def)
  have s3: "setcol ''enters_zone'' (\<lambda>t v. t\<lparr>enters_zone := v\<rparr>)
              (map2 (\<and>) (map Not (map (\<lambda>t. pickup_loc t \<in> set ?Z) ?ts))
                 (map (\<lambda>t. dropoff_loc t \<in> set ?Z) ?ts)) d2 = annotated (h r)"
  proof -
    have "map2 (\<and>) (map Not (map (\<lambda>t. pickup_loc t \<in> set ?Z) ?ts))
                 (map (\<lambda>t. dropoff_loc t \<in> set ?Z) ?ts)
          = map (\<lambda>t. pickup_loc t \<notin> set ?Z \<and> dropoff_loc t \<in> set ?Z) ?ts"
      by (simp add: map2_map_same comp_def)
    then show ?thesis
      by (simp add: d2_def setcol_map_map annotated_def c2_def c1_def u2_def u1_def annotate_def)
  qed
  show ?thesis
    unfolding flag_zone_trips_def
    by (simp only: g1 sum.case Let_def fun_upd_same s1 g2 s2 fun_upd_upd g3 g4 s3)
qed

lemma select_map_map: "map fst (filter snd (zip (map u xs) (map p xs))) = map u (filter p xs)"
  by (induction xs) simp_all

lemma bool_index_lit:
  "bool_index \<lparr>columns = cs, rows = map u xs\<rparr> (map p xs) = \<lparr>columns = cs, rows = map u (filter p xs)\<rparr>"
  by (simp add: bool_index_def select_map_map)

lemma annotated_columns:
  "c \<in> set (columns df) \<Longrightarrow> c \<in> set (columns (annotated df))"
  "''enters_zone'' \<in> set (columns (annotated df))"
  "''pickup_in_zone'' \<in> set (columns (annotated df))"
  "''dropoff_in_zone'' \<in> set (columns (annotated df))"
  by (simp_all add: annotated_def add_label_mono add_label_same)

lemma zone_entries_of_annotated:
  assumes "''pickup_time'' \<in> set (columns df)"
  shows "zone_entries_of (annotated df) =
     Inr \<lparr>columns = columns (annotated df), rows = map annotate (filter qualifies (rows df))\<rparr>"
proof -
  let ?cs = "columns (annotated df)"
  have a: "annotated df = \<lparr>columns = ?cs, rows = map annotate (rows df)\<rparr>"
    by (simp add: annotated_def)
  have g1: "getcol ''pickup_time'' pickup_time (annotated df) = Inr (map pickup_time (rows df))"
    using assms by (simp add: getcol_def annotated_columns) (simp add: annotated_def annotate_def comp_def)
  have b1: "bool_index (annotated df) (map (\<lambda>x. tge x cutoff) (map pickup_time (rows df)))
     = \<lparr>columns = ?cs, rows = map annotate (filter (\<lambda>t. tge (pickup_time t) cutoff) (rows df))\<rparr>"
    (is "_ = ?pt")
    by (simp add: annotated_def bool_index_def select_map_map comp_def)
  have g2: "getcol ''enters_zone'' enters_zone ?pt
     = Inr (map (\<lambda>t. pickup_loc t \<notin> set CONGESTION_ZONE_IDS \<and> dropoff_loc t \<in> set CONGESTION_ZONE_IDS)
              (filter (\<lambda>t. tge (pickup_time t) cutoff) (rows df)))"
    by (simp add: getcol_def annotated_columns annotate_def comp_def)
  have b2: "bool_index ?pt (map (\<lambda>t. pickup_loc t \<notin> set CONGESTION_ZONE_IDS \<and> dropoff_loc t \<in> set CONGESTION_ZONE_IDS)
              (filter (\<lambda>t. tge (pickup_time t) cutoff) (rows df)))
     = \<lparr>columns = ?cs, rows = map annotate (filter qualifies (rows df))\<rparr>"
  proof -
    have "filter (\<lambda>t. pickup_loc t \<notin> set CONGESTION_ZONE_IDS \<and> dropoff_loc t \<in> set CONGESTION_ZONE_IDS)
            (filter (\<lambda>t. tge (pickup_time t) cutoff) (rows df)) = filter qualifies (rows df)"
      by (auto simp add: qualifies_def intro: filter_cong)
    then show ?thesis
      by (simp only: bool_index_lit)
  qed
  show ?thesis
    unfolding zone_entries_of_def
    by (simp only: g1 sum.case Let_def b1 g2 b2)
qed

lemma compliance_report_eq:
  assumes "''congestion_surcharge'' \<in> set cs" "''pickup_loc'' \<in> set cs"
  shows "compliance_report \<lparr>columns = cs, rows = map annotate qs\<rparr> = (Inr (), report_lines qs)"
proof (cases "qs = []")
  case True
  then show ?thesis by (simp add: compliance_report_def report_lines_def)
next
  case False
  let ?ze = "\<lparr>columns = cs, rows = map annotate qs\<rparr>"
  have g1: "getcol ''congestion_surcharge'' congestion_surcharge ?ze = Inr (map congestion_surcharge qs)"
    using assms by (simp add: getcol_def annotate_def comp_def)
  have b1: "bool_index ?ze (map (\<lambda>x. fgt x 0) (map congestion_surcharge qs))
      = \<lparr>columns = cs, rows = map annotate (filter (\<lambda>t. fgt (congestion_surcharge t) 0) qs)\<rparr>"
    using bool_index_lit [of cs annotate qs "\<lambda>t. fgt (congestion_surcharge t) 0"]
    by (simp add: comp_def)
  have b2: "bool_index ?ze (map (\<lambda>x. feq x 0) (map congestion_surcharge qs))
      = \<lparr>columns = cs, rows = map annotate (filter (\<lambda>t. feq (congestion_surcharge t) 0) qs)\<rparr>"
    using bool_index_lit [of cs annotate qs "\<lambda>t. feq (congestion_surcharge t) 0"]
    by (simp add: comp_def)
  have g2: "\<And>ys. getcol ''pickup_loc'' pickup_loc \<lparr>columns = cs, rows = map annotate ys\<rparr>
      = Inr (map pickup_loc ys)"
    using assms by (simp add: getcol_def annotate_def comp_def)
  show ?thesis
    unfolding compliance_report_def
    apply (simp only: g1 sum.case Let_def b1 b2 g2)
    using False apply (simp add: report_lines_def)
    done
qed

lemma compliance_report_empty:
  "compliance_report \<lparr>columns = cs, rows = []\<rparr> = (Inr (), [])"
  by (simp add: compliance_report_def)

lemma compliance_report_no_surcharge:
  assumes "''congestion_surcharge'' \<notin> set cs" "qs \<noteq> []"
  shows "compliance_report \<lparr>columns = cs, rows = map annotate qs\<rparr>
           = (Inl (KeyError ''congestion_surcharge''), [])"
  using assms by (simp add: compliance_report_def getcol_def)

lemma analyze_eq:
  assumes "''pickup_loc'' \<in> set (columns (h r))" "''dropoff_loc'' \<in> set (columns (h r))"
    "''pickup_time'' \<in> set (columns (h r))" "''congestion_surcharge'' \<in> set (columns (h r))"
  shows "analyze_congestion_zone r h =
     (Inr r, h(r := annotated (h r)), Analyzing # report_lines (filter qualifies (rows (h r))))"
  unfolding analyze_congestion_zone_def
  by (simp add: flag_zone_trips_eq assms zone_entries_of_annotated compliance_report_eq annotated_columns)

lemma analyze_no_entries:
  assumes "''pickup_loc'' \<in> set (columns (h r))" "''dropoff_loc'' \<in> set (columns (h r))"
    "''pickup_time'' \<in> set (columns (h r))" "filter qualifies (rows (h r)) = []"
  shows "analyze_congestion_zone r h = (Inr r, h(r := annotated (h r)), [Analyzing])"
  unfolding analyze_congestion_zone_def
  by (simp add: flag_zone_trips_eq assms zone_entries_of_annotated compliance_report_empty)

section \<open>Grouping and ranking\<close>

lemma ranks_before_trans: "ranks_before a b \<Longrightarrow> ranks_before b c \<Longrightarrow> ranks_before a c"
  by (auto simp add: ranks_before_def)











section \<open>Properties of the classifier\<close>

text \<open>
  C2: for a table with the four rule columns, a row of the table is in the ghost table
  exactly when the speed is above 65, or the duration is below 1 and the fare above 20,
  or the distance is 0 and the fare above 0; it is in the clean table exactly when no
  rule holds; and a rule with a NaN cell does not hold, so the row is classified by
  the other rules alone.
\<close>

theorem ghost_iff_some_rule:
  assumes "set rule_columns \<subseteq> set (columns df)" and "t \<in> set (rows df)"
  shows "\<exists>clean_df ghost_df. fst (detect_ghost_trips df) = Inr (clean_df, ghost_df)
    \<and> (t \<in> set (rows ghost_df) \<longleftrightarrow>
          fgt (avg_speed t) 65
          \<or> (flt (trip_duration t) 1 \<and> fgt (fare t) 20)
          \<or> (feq (trip_distance t) 0 \<and> fgt (fare t) 0))
    \<and> (t \<in> set (rows clean_df) \<longleftrightarrow>
          \<not> (fgt (avg_speed t) 65
          \<or> (flt (trip_duration t) 1 \<and> fgt (fare t) 20)
          \<or> (feq (trip_distance t) 0 \<and> fgt (fare t) 0)))
    \<and> (avg_speed t = NaN \<longrightarrow> (t \<in> set (rows ghost_df) \<longleftrightarrow>
          (flt (trip_duration t) 1 \<and> fgt (fare t) 20)
          \<or> (feq (trip_distance t) 0 \<and> fgt (fare t) 0)))
    \<and> (trip_duration t = NaN \<or> fare t = NaN \<longrightarrow> (t \<in> set (rows ghost_df) \<longleftrightarrow>
          fgt (avg_speed t) 65 \<or> (feq (trip_distance t) 0 \<and> fgt (fare t) 0)))
    \<and> (trip_distance t = NaN \<or> fare t = NaN \<longrightarrow> (t \<in> set (rows ghost_df) \<longleftrightarrow>
          fgt (avg_speed t) 65 \<or> (flt (trip_duration t) 1 \<and> fgt (fare t) 20)))"
proof -
  have "rows df \<noteq> []" using assms(2) by auto
  then have r: "fst (detect_ghost_trips df) =
     Inr (df\<lparr>rows := filter (\<lambda>t. \<not> is_ghost t) (rows df)\<rparr>, df\<lparr>rows := filter is_ghost (rows df)\<rparr>)"
    using assms(1) by (rule detect_returns [rotated])
  show ?thesis
    unfolding r using assms(2)
    by (auto simp add: is_ghost_def rule_speed_def rule_teleport_def rule_stationary_def)
qed

theorem ghost_iff_some_rule_witness:
  "\<exists>clean_df ghost_df.
     fst (detect_ghost_trips (table_of [example_trip\<lparr>avg_speed := Fin 70\<rparr>,
            example_trip\<lparr>avg_speed := NaN, trip_duration := NaN, fare := NaN, trip_distance := NaN\<rparr>]))
       = Inr (clean_df, ghost_df)
     \<and> example_trip\<lparr>avg_speed := NaN, trip_duration := NaN, fare := NaN, trip_distance := NaN\<rparr>
          \<in> set (rows clean_df)
     \<and> example_trip\<lparr>avg_speed := NaN, trip_duration := NaN, fare := NaN, trip_distance := NaN\<rparr>
          \<notin> set (rows ghost_df)"
  using ghost_iff_some_rule [of "table_of [example_trip\<lparr>avg_speed := Fin 70\<rparr>,
            example_trip\<lparr>avg_speed := NaN, trip_duration := NaN, fare := NaN, trip_distance := NaN\<rparr>]"
       "example_trip\<lparr>avg_speed := NaN, trip_duration := NaN, fare := NaN, trip_distance := NaN\<rparr>"]
  by (auto simp add: table_of_def rule_columns_def schema_has)

text \<open>
  Whenever the classifier returns, the two tables partition the rows of its input: as
  sets and as multisets, so a row that matches several rules is in the ghost table as
  often as it is in the input.
\<close>

lemma detect_ghost_trips_partition:
  assumes "detect_ghost_trips df = (Inr (clean_df, ghost_df), out)"
  shows "set (rows clean_df) \<union> set (rows ghost_df) = set (rows df)
       \<and> set (rows clean_df) \<inter> set (rows ghost_df) = {}
       \<and> mset (rows clean_df) + mset (rows ghost_df) = mset (rows df)
       \<and> columns clean_df = columns df \<and> columns ghost_df = columns df"
proof -
  have c: "set rule_columns \<subseteq> set (columns df)"
    using detect_missing [of df] assms by auto
  have n: "rows df \<noteq> []"
    using detect_empty [OF c] assms by auto
  have "fst (detect_ghost_trips df) = Inr (clean_df, ghost_df)" using assms by simp
  then have "clean_df = df\<lparr>rows := filter (\<lambda>t. \<not> is_ghost t) (rows df)\<rparr>"
    "ghost_df = df\<lparr>rows := filter is_ghost (rows df)\<rparr>"
    using detect_returns [OF c n] by simp_all
  then show ?thesis by auto
qed

text \<open>
  Whenever the classifier returns on a table and again on the clean table of that run,
  the second ghost table is empty and the second clean table has the rows of the first.
\<close>

lemma second_run_finds_no_ghost:
  assumes "detect_ghost_trips df = (Inr (clean_df, ghost_df), out)"
    and "detect_ghost_trips clean_df = (Inr (clean2, ghost2), out2)"
  shows "rows ghost2 = [] \<and> rows clean2 = rows clean_df"
proof -
  have c: "set rule_columns \<subseteq> set (columns df)"
    using detect_missing [of df] assms(1) by auto
  have n: "rows df \<noteq> []"
    using detect_empty [OF c] assms(1) by auto
  have "fst (detect_ghost_trips df) = Inr (clean_df, ghost_df)" using assms(1) by simp
  then have cl: "clean_df = df\<lparr>rows := filter (\<lambda>t. \<not> is_ghost t) (rows df)\<rparr>"
    using detect_returns [OF c n] by simp
  have c2: "set rule_columns \<subseteq> set (columns clean_df)" using c cl by simp
  have n2: "rows clean_df \<noteq> []"
    using detect_empty [OF c2] assms(2) by auto
  have "fst (detect_ghost_trips clean_df) = Inr (clean2, ghost2)" using assms(2) by simp
  then have "ghost2 = clean_df\<lparr>rows := filter is_ghost (rows clean_df)\<rparr>"
     "clean2 = clean_df\<lparr>rows := filter (\<lambda>t. \<not> is_ghost t) (rows clean_df)\<rparr>"
    using detect_returns [OF c2 n2] by simp_all
  then show ?thesis using cl by (simp add: filter_empty_conv filter_id_conv)
qed

text \<open>
  C1: the classifier returns two tables, clean and ghost, that partition its input,
  for every input table. On the table with the four rule columns and no rows it
  returns no pair of tables: the division by \<open>len(df)\<close> in the last print raises.
\<close>

theorem partition_fails_on_empty_table:
  "\<not> (\<exists>clean_df ghost_df. fst (detect_ghost_trips \<lparr>columns = rule_columns, rows = []\<rparr>)
         = Inr (clean_df, ghost_df))"
  by (simp add: detect_ghost_trips_def rule_columns_def getcol_def Let_def)

text \<open>
  C9: on every table with the four rule columns the classifier completes and returns
  its partition, the empty table included. On the empty table of the full schema it
  prints the three counts, all 0, and raises ZeroDivisionError.
\<close>

theorem empty_table_raises:
  "detect_ghost_trips (table_of []) =
     (Inl ZeroDivisionError, [Detecting, SpeedCount 0, TeleportCount 0, StationaryCount 0])"
  by (simp add: detect_ghost_trips_def table_of_def schema_columns_def getcol_def Let_def mask_sum_def)

text \<open>
  C8: a second run of the classifier on the clean table of a first run gives an empty
  ghost table. On a table whose only row has a speed of 70 the first run returns an
  empty clean table, and the second run, on that table, raises ZeroDivisionError.
\<close>

theorem second_run_raises_when_all_ghost:
  "fst (detect_ghost_trips (table_of [example_trip\<lparr>avg_speed := Fin 70\<rparr>]))
     = Inr (table_of [], table_of [example_trip\<lparr>avg_speed := Fin 70\<rparr>])
   \<and> fst (detect_ghost_trips (table_of [])) = Inl ZeroDivisionError"
  by (simp add: detect_ghost_trips_def table_of_def schema_columns_def getcol_def Let_def
      mask_sum_def bool_index_def)

section \<open>Properties of the analyzer\<close>

lemma annotated_rows: "rows (annotated df) = map annotate (rows df)"
  by (simp add: annotated_def)

lemma flag_store:
  assumes "''pickup_loc'' \<in> set (columns (h r))" "''dropoff_loc'' \<in> set (columns (h r))"
  shows "fst (snd (analyze_congestion_zone r h)) = h(r := annotated (h r))"
  using assms
  by (simp add: analyze_congestion_zone_def flag_zone_trips_eq split: sum.splits prod.splits)

text \<open>
  C4: for a table with the two location columns, the analyzer sets, row by row,
  pickup_in_zone to the membership of pickup_loc in the zone set, dropoff_in_zone to
  the membership of dropoff_loc, and enters_zone to "not pickup_in_zone and
  dropoff_in_zone"; a row with pickup_loc 100 and dropoff_loc 4 has enters_zone false.
\<close>

theorem zone_flags:
  assumes "''pickup_loc'' \<in> set (columns (h r))" and "''dropoff_loc'' \<in> set (columns (h r))"
  shows "getcol ''pickup_in_zone'' pickup_in_zone (fst (snd (analyze_congestion_zone r h)) r)
           = Inr (map (\<lambda>t. pickup_loc t \<in> set CONGESTION_ZONE_IDS) (rows (h r)))
       \<and> getcol ''dropoff_in_zone'' dropoff_in_zone (fst (snd (analyze_congestion_zone r h)) r)
           = Inr (map (\<lambda>t. dropoff_loc t \<in> set CONGESTION_ZONE_IDS) (rows (h r)))
       \<and> getcol ''enters_zone'' enters_zone (fst (snd (analyze_congestion_zone r h)) r)
           = Inr (map (\<lambda>t. pickup_loc t \<notin> set CONGESTION_ZONE_IDS
                          \<and> dropoff_loc t \<in> set CONGESTION_ZONE_IDS) (rows (h r)))
       \<and> (\<forall>i < length (rows (h r)).
             pickup_loc (rows (h r) ! i) = 100 \<and> dropoff_loc (rows (h r) ! i) = 4
             \<longrightarrow> \<not> enters_zone (rows (fst (snd (analyze_congestion_zone r h)) r) ! i))"
proof -
  have z: "(100::int) \<in> set CONGESTION_ZONE_IDS"
    by (simp add: CONGESTION_ZONE_IDS_def)
  show ?thesis
    unfolding flag_store [of h r, OF assms]
    by (simp add: getcol_def annotated_columns annotated_rows comp_def annotate_def z)
qed

theorem zone_flags_witness:
  "getcol ''pickup_in_zone'' pickup_in_zone
      (fst (snd (analyze_congestion_zone 0
         (\<lambda>r. table_of [example_trip\<lparr>pickup_loc := 100\<rparr>, example_trip]))) 0) = Inr [True, False]
   \<and> getcol ''dropoff_in_zone'' dropoff_in_zone
      (fst (snd (analyze_congestion_zone 0
         (\<lambda>r. table_of [example_trip\<lparr>pickup_loc := 100\<rparr>, example_trip]))) 0) = Inr [True, True]
   \<and> getcol ''enters_zone'' enters_zone
      (fst (snd (analyze_congestion_zone 0
         (\<lambda>r. table_of [example_trip\<lparr>pickup_loc := 100\<rparr>, example_trip]))) 0) = Inr [False, True]
   \<and> \<not> enters_zone (rows (fst (snd (analyze_congestion_zone 0
         (\<lambda>r. table_of [example_trip\<lparr>pickup_loc := 100\<rparr>, example_trip]))) 0) ! 0)"
  using zone_flags [of "\<lambda>r. table_of [example_trip\<lparr>pickup_loc := 100\<rparr>, example_trip]" 0]
  by (simp add: table_of_def schema_has example_trip_def CONGESTION_ZONE_IDS_def)

lemma compliance_rates_lines:
  "compliance_rates (map (\<lambda>e. LeakageLocation (fst e) (snd e)) es) = []"
  by (induction es) simp_all

lemma compliance_rates_report:
  "compliance_rates (report_lines qs) =
     (if qs = [] then []
      else [of_nat (length (filter (\<lambda>t. fgt (congestion_surcharge t) 0) qs)) / of_nat (length qs)])"
  by (simp add: report_lines_def compliance_rates_lines)

lemma rate_bounds:
  assumes "qs \<noteq> []"
  shows "0 \<le> (of_nat (length (filter P qs)) / of_nat (length qs) :: rat)"
    and "(of_nat (length (filter P qs)) / of_nat (length qs) :: rat) \<le> 1"
proof -
  have n: "0 < length qs" using assms by simp
  show "0 \<le> (of_nat (length (filter P qs)) / of_nat (length qs) :: rat)"
    by simp
  have "length (filter P qs) \<le> length qs" by simp
  then have "(of_nat (length (filter P qs)) :: rat) \<le> of_nat (length qs)"
    by (simp only: of_nat_le_iff)
  then show "(of_nat (length (filter P qs)) / of_nat (length qs) :: rat) \<le> 1"
    using n by (simp add: divide_le_eq_1)
qed

text \<open>
  C5 as stated fails: for a table whose only trip after the cutoff ends outside the
  zone, the qualifying set is empty, the analyzer returns the table and prints its
  heading only; no compliance rate and no sentinel is reported.
\<close>

theorem no_rate_without_zone_entry:
  "filter qualifies (rows (table_of [example_trip\<lparr>dropoff_loc := 7\<rparr>])) = []
   \<and> fst (analyze_congestion_zone 0 (\<lambda>r. table_of [example_trip\<lparr>dropoff_loc := 7\<rparr>])) = Inr 0
   \<and> snd (snd (analyze_congestion_zone 0 (\<lambda>r. table_of [example_trip\<lparr>dropoff_loc := 7\<rparr>])))
        = [Analyzing]
   \<and> compliance_rates
        (snd (snd (analyze_congestion_zone 0 (\<lambda>r. table_of [example_trip\<lparr>dropoff_loc := 7\<rparr>]))))
        = []"
proof -
  let ?h = "\<lambda>r::ref. table_of [example_trip\<lparr>dropoff_loc := 7\<rparr>]"
  have q: "filter qualifies (rows (?h 0)) = []"
    by (simp add: table_of_def qualifies_def CONGESTION_ZONE_IDS_def)
  have "analyze_congestion_zone 0 ?h = (Inr 0, ?h(0 := annotated (?h 0)), [Analyzing])"
    using q by (intro analyze_no_entries [of "\<lambda>r::ref. table_of [example_trip\<lparr>dropoff_loc := 7\<rparr>]" 0])
      (simp_all add: table_of_def schema_has)
  then show ?thesis using q by simp
qed

text \<open>
  C5 (as amended): for a table with the location and time columns, when the qualifying
  set is empty the analyzer returns the table without an error and prints nothing but
  its heading; when it is not empty (and the surcharge column is there) the analyzer
  returns the table and prints one compliance rate, the number of qualifying rows with
  a surcharge above 0 over the number of qualifying rows, which is between 0 and 1.
\<close>

theorem compliance_rate_printed:
  assumes "''pickup_loc'' \<in> set (columns (h r))" and "''dropoff_loc'' \<in> set (columns (h r))"
    and "''pickup_time'' \<in> set (columns (h r))"
  shows "(filter qualifies (rows (h r)) = [] \<longrightarrow>
            fst (analyze_congestion_zone r h) = Inr r
            \<and> snd (snd (analyze_congestion_zone r h)) = [Analyzing])
       \<and> (filter qualifies (rows (h r)) \<noteq> [] \<and> ''congestion_surcharge'' \<in> set (columns (h r)) \<longrightarrow>
            fst (analyze_congestion_zone r h) = Inr r
            \<and> compliance_rates (snd (snd (analyze_congestion_zone r h)))
                = [of_nat (length (filter (\<lambda>t. qualifies t \<and> fgt (congestion_surcharge t) 0) (rows (h r))))
                    / of_nat (length (filter qualifies (rows (h r))))]
            \<and> (0::rat) \<le> of_nat (length (filter (\<lambda>t. qualifies t \<and> fgt (congestion_surcharge t) 0) (rows (h r))))
                    / of_nat (length (filter qualifies (rows (h r))))
            \<and> (of_nat (length (filter (\<lambda>t. qualifies t \<and> fgt (congestion_surcharge t) 0) (rows (h r))))
                    / of_nat (length (filter qualifies (rows (h r)))) :: rat) \<le> 1)"
proof (rule conjI; rule impI)
  assume e: "filter qualifies (rows (h r)) = []"
  have "analyze_congestion_zone r h = (Inr r, h(r := annotated (h r)), [Analyzing])"
    using assms e by (rule analyze_no_entries [of h r])
  then show "fst (analyze_congestion_zone r h) = Inr r \<and> snd (snd (analyze_congestion_zone r h)) = [Analyzing]"
    by simp
next
  assume a: "filter qualifies (rows (h r)) \<noteq> [] \<and> ''congestion_surcharge'' \<in> set (columns (h r))"
  let ?qs = "filter qualifies (rows (h r))"
  have eq: "analyze_congestion_zone r h = (Inr r, h(r := annotated (h r)), Analyzing # report_lines ?qs)"
    using assms a by (intro analyze_eq [of h r]) simp_all
  have f: "filter (\<lambda>t. fgt (congestion_surcharge t) 0) ?qs
             = filter (\<lambda>t. qualifies t \<and> fgt (congestion_surcharge t) 0) (rows (h r))"
    by (simp add: conj_commute)
  have c: "compliance_rates (report_lines ?qs)
      = [of_nat (length (filter (\<lambda>t. fgt (congestion_surcharge t) 0) ?qs)) / of_nat (length ?qs)]"
    using a by (simp only: compliance_rates_report if_False)
  have b: "0 \<le> (of_nat (length (filter (\<lambda>t. fgt (congestion_surcharge t) 0) ?qs)) / of_nat (length ?qs) :: rat)"
    "(of_nat (length (filter (\<lambda>t. fgt (congestion_surcharge t) 0) ?qs)) / of_nat (length ?qs) :: rat) \<le> 1"
    using a rate_bounds [of ?qs] by blast+
  have "compliance_rates (snd (snd (analyze_congestion_zone r h))) = compliance_rates (report_lines ?qs)"
    unfolding eq by simp
  then show "fst (analyze_congestion_zone r h) = Inr r
     \<and> compliance_rates (snd (snd (analyze_congestion_zone r h)))
         = [of_nat (length (filter (\<lambda>t. qualifies t \<and> fgt (congestion_surcharge t) 0) (rows (h r))))
              / of_nat (length ?qs)]
     \<and> (0::rat) \<le> of_nat (length (filter (\<lambda>t. qualifies t \<and> fgt (congestion_surcharge t) 0) (rows (h r))))
              / of_nat (length ?qs)
     \<and> (of_nat (length (filter (\<lambda>t. qualifies t \<and> fgt (congestion_surcharge t) 0) (rows (h r))))
              / of_nat (length ?qs) :: rat) \<le> 1"
    using b c eq unfolding f by simp
qed


theorem compliance_rate_printed_witness:
  "snd (snd (analyze_congestion_zone 0 (\<lambda>r. table_of [example_trip\<lparr>pickup_loc := 100\<rparr>])))
     = [Analyzing]
   \<and> compliance_rates (snd (snd (analyze_congestion_zone 0
        (\<lambda>r. table_of [example_trip, example_trip\<lparr>congestion_surcharge := Fin 0\<rparr>])))) = [1 / 2]"
  using compliance_rate_printed [of "\<lambda>r. table_of [example_trip\<lparr>pickup_loc := 100\<rparr>]" 0]
    compliance_rate_printed
      [of "\<lambda>r. table_of [example_trip, example_trip\<lparr>congestion_surcharge := Fin 0\<rparr>]" 0]
  by (simp add: table_of_def schema_has qualifies_def example_trip_def cutoff_def
      CONGESTION_ZONE_IDS_def)










section \<open>The driver\<close>

lemma detect_returns_full:
  assumes "set rule_columns \<subseteq> set (columns df)" "rows df \<noteq> []"
  shows "\<exists>out. detect_ghost_trips df =
     (Inr (df\<lparr>rows := filter (\<lambda>t. \<not> is_ghost t) (rows df)\<rparr>, df\<lparr>rows := filter is_ghost (rows df)\<rparr>), out)"
  using detect_returns [OF assms] by (metis prod.collapse)

lemma create_summary_stats_returns:
  assumes "''fare'' \<in> set (columns df)" "''trip_distance'' \<in> set (columns df)"
    "''avg_speed'' \<in> set (columns df)" "''total_amount'' \<in> set (columns df)"
  shows "fst (create_summary_stats df) = Inr ()"
  using assms by (simp add: create_summary_stats_def getcol_def Let_def)

lemma main_returns:
  assumes "set schema_columns \<subseteq> set (columns df)" "rows df \<noteq> []"
  shows "fst (main df) =
     Inr (annotated (df\<lparr>rows := filter (\<lambda>t. \<not> is_ghost t) (rows df)\<rparr>),
          df\<lparr>rows := filter is_ghost (rows df)\<rparr>)"
proof -
  let ?c = "df\<lparr>rows := filter (\<lambda>t. \<not> is_ghost t) (rows df)\<rparr>"
  let ?g = "df\<lparr>rows := filter is_ghost (rows df)\<rparr>"
  let ?h = "main_store df ?c ?g"
  have cols: "''avg_speed'' \<in> set (columns df)" "''trip_duration'' \<in> set (columns df)"
    "''fare'' \<in> set (columns df)" "''trip_distance'' \<in> set (columns df)"
    "''pickup_loc'' \<in> set (columns df)" "''dropoff_loc'' \<in> set (columns df)"
    "''pickup_time'' \<in> set (columns df)" "''congestion_surcharge'' \<in> set (columns df)"
    "''total_amount'' \<in> set (columns df)"
    using assms(1) schema_has by blast+
  have rc: "set rule_columns \<subseteq> set (columns df)"
    using cols by (simp add: rule_columns_def)
  obtain o1 where d: "detect_ghost_trips df = (Inr (?c, ?g), o1)"
    using detect_returns_full [OF rc assms(2)] by blast
  have h1: "?h 1 = ?c" by (simp add: main_store_def)
  have a: "analyze_congestion_zone 1 ?h =
      (Inr 1, ?h(1 := annotated (?h 1)), Analyzing # report_lines (filter qualifies (rows (?h 1))))"
    by (rule analyze_eq [of ?h 1]) (simp_all add: main_store_def cols)
  have s: "fst (create_summary_stats (annotated ?c)) = Inr ()"
    by (rule create_summary_stats_returns) (simp_all add: annotated_columns cols)
  obtain o3 where s': "create_summary_stats (annotated ?c) = (Inr (), o3)"
    using s by (metis prod.collapse)
  show ?thesis
    unfolding main_def d
    by (simp only: a h1 prod.case sum.case fun_upd_same s' fst_conv) (simp add: main_store_def)
qed

text \<open>
  C10: for a table with the columns it reads, the analyzer returns the reference it
  was given and changes the store at that reference only: the table there gains the
  three zone columns, keeps every label it had, has as many rows as before, and every
  column of the schema holds the cells it held. In \<open>main\<close>, on a non-empty table of
  the schema, the clean table that is saved is the object the analyzer assigned to, so
  it has the three zone columns; the ghost table saved is the one the classifier
  returned.
\<close>

theorem analyze_assigns_in_place:
  assumes "''pickup_loc'' \<in> set (columns (h r))" and "''dropoff_loc'' \<in> set (columns (h r))"
    and "''pickup_time'' \<in> set (columns (h r))"
    and "''congestion_surcharge'' \<in> set (columns (h r))"
    and "set schema_columns \<subseteq> set (columns df)" and "rows df \<noteq> []"
  shows "fst (analyze_congestion_zone r h) = Inr r
    \<and> (\<forall>r'. r' \<noteq> r \<longrightarrow> fst (snd (analyze_congestion_zone r h)) r' = h r')
    \<and> set zone_columns \<subseteq> set (columns (fst (snd (analyze_congestion_zone r h)) r))
    \<and> set (columns (h r)) \<subseteq> set (columns (fst (snd (analyze_congestion_zone r h)) r))
    \<and> (set zone_columns \<inter> set (columns (h r)) = {} \<longrightarrow>
          columns (fst (snd (analyze_congestion_zone r h)) r) = columns (h r) @ zone_columns)
    \<and> rows (fst (snd (analyze_congestion_zone r h)) r) = map annotate (rows (h r))
    \<and> length (rows (fst (snd (analyze_congestion_zone r h)) r)) = length (rows (h r))
    \<and> map pickup_time (rows (fst (snd (analyze_congestion_zone r h)) r)) = map pickup_time (rows (h r))
    \<and> map dropoff_time (rows (fst (snd (analyze_congestion_zone r h)) r)) = map dropoff_time (rows (h r))
    \<and> map pickup_loc (rows (fst (snd (analyze_congestion_zone r h)) r)) = map pickup_loc (rows (h r))
    \<and> map dropoff_loc (rows (fst (snd (analyze_congestion_zone r h)) r)) = map dropoff_loc (rows (h r))
    \<and> map trip_distance (rows (fst (snd (analyze_congestion_zone r h)) r)) = map trip_distance (rows (h r))
    \<and> map fare (rows (fst (snd (analyze_congestion_zone r h)) r)) = map fare (rows (h r))
    \<and> map total_amount (rows (fst (snd (analyze_congestion_zone r h)) r)) = map total_amount (rows (h r))
    \<and> map congestion_surcharge (rows (fst (snd (analyze_congestion_zone r h)) r))
        = map congestion_surcharge (rows (h r))
    \<and> map tip (rows (fst (snd (analyze_congestion_zone r h)) r)) = map tip (rows (h r))
    \<and> map hour (rows (fst (snd (analyze_congestion_zone r h)) r)) = map hour (rows (h r))
    \<and> map day_of_week (rows (fst (snd (analyze_congestion_zone r h)) r)) = map day_of_week (rows (h r))
    \<and> map month (rows (fst (snd (analyze_congestion_zone r h)) r)) = map month (rows (h r))
    \<and> map trip_duration (rows (fst (snd (analyze_congestion_zone r h)) r)) = map trip_duration (rows (h r))
    \<and> map avg_speed (rows (fst (snd (analyze_congestion_zone r h)) r)) = map avg_speed (rows (h r))
    \<and> (\<exists>clean_df ghost_df. fst (main df) = Inr (clean_df, ghost_df)
          \<and> set zone_columns \<subseteq> set (columns clean_df)
          \<and> rows clean_df = map annotate (filter (\<lambda>t. \<not> is_ghost t) (rows df))
          \<and> ghost_df = df\<lparr>rows := filter is_ghost (rows df)\<rparr>)"
proof -
  have eq: "analyze_congestion_zone r h =
     (Inr r, h(r := annotated (h r)), Analyzing # report_lines (filter qualifies (rows (h r))))"
    using assms(1-4) by (rule analyze_eq [of h r])
  have zc: "set zone_columns \<subseteq> set (columns (annotated (h r)))"
    by (simp add: zone_columns_def annotated_columns)
  have sub: "set (columns (h r)) \<subseteq> set (columns (annotated (h r)))"
    using annotated_columns(1) by blast
  have app: "set zone_columns \<inter> set (columns (h r)) = {} \<longrightarrow>
          columns (annotated (h r)) = columns (h r) @ zone_columns"
    by (simp add: zone_columns_def annotated_def add_label_def)
  have m: "\<exists>clean_df ghost_df. fst (main df) = Inr (clean_df, ghost_df)
          \<and> set zone_columns \<subseteq> set (columns clean_df)
          \<and> rows clean_df = map annotate (filter (\<lambda>t. \<not> is_ghost t) (rows df))
          \<and> ghost_df = df\<lparr>rows := filter is_ghost (rows df)\<rparr>"
    unfolding main_returns [OF assms(5,6)]
    by (simp add: zone_columns_def annotated_columns annotated_rows)
  show ?thesis
    unfolding eq
    using zc sub app m
    by (simp add: annotated_rows comp_def annotate_def)
qed


theorem analyze_assigns_in_place_witness:
  "fst (analyze_congestion_zone 0 (\<lambda>r. table_of [example_trip])) = Inr 0
   \<and> columns (fst (snd (analyze_congestion_zone 0 (\<lambda>r. table_of [example_trip]))) 0)
        = schema_columns @ zone_columns
   \<and> map fare (rows (fst (snd (analyze_congestion_zone 0 (\<lambda>r. table_of [example_trip]))) 0))
        = [Fin 30]
   \<and> (\<exists>clean_df ghost_df.
         fst (main (table_of [example_trip, example_trip\<lparr>avg_speed := Fin 70\<rparr>]))
           = Inr (clean_df, ghost_df)
         \<and> set zone_columns \<subseteq> set (columns clean_df)
         \<and> rows clean_df = [annotate example_trip]
         \<and> rows ghost_df = [example_trip\<lparr>avg_speed := Fin 70\<rparr>])"
proof -
  have d: "set zone_columns \<inter> set schema_columns = {}"
    by (simp add: zone_columns_def schema_columns_def)
  have g: "\<not> is_ghost example_trip" "is_ghost (example_trip\<lparr>avg_speed := Fin 70\<rparr>)"
    by (simp_all add: is_ghost_def rule_speed_def rule_teleport_def rule_stationary_def
        example_trip_def)
  show ?thesis
    using analyze_assigns_in_place [of "\<lambda>r. table_of [example_trip]" 0
        "table_of [example_trip, example_trip\<lparr>avg_speed := Fin 70\<rparr>]"] d g
    by (auto simp add: table_of_def schema_has) (simp add: example_trip_def)
qed

end
